theory Spec2Isabelle
  imports Main "HOL-Library.Multiset"
begin

section \<open>Data model of the log handler\<close>

text \<open>
  The message text of an event is a Python \<open>str\<close>: a sequence of Unicode code points.
  It is modelled as a list of code points, so that \<open>len\<close> is \<open>length\<close>. Names, tokens and
  error codes are only compared and split at spaces; they are plain strings.
\<close>

type_synonym codepoint = nat

type_synonym unicode = "codepoint list"

text \<open>The dictionary \<open>dict(timestamp=..., message=...)\<close> built by \<open>emit\<close>.\<close>

record event =
  timestamp :: int
  message :: unicode

text \<open>What a queue holds: an event dictionary, or the class constant \<open>END = 1\<close>.\<close>

datatype queue_item = Msg event | END

text \<open>
  \<open>Queue.Queue\<close>: the items waiting, and the count of items put and not yet reported
  by \<open>task_done\<close>, on which \<open>join\<close> waits.
\<close>

record queue =
  items :: "queue_item list"
  unfinished_tasks :: nat

definition Queue :: queue where
  "Queue = \<lparr>items = [], unfinished_tasks = 0\<rparr>"

definition put :: "queue_item \<Rightarrow> queue \<Rightarrow> queue" where
  "put x q = q\<lparr>items := items q @ [x], unfinished_tasks := Suc (unfinished_tasks q)\<rparr>"


text \<open>The keyword arguments of \<open>put_log_events\<close>; \<open>sequenceToken = None\<close> is an absent key.\<close>

record request =
  logGroupName :: string
  logStreamName :: string
  logEvents :: "event list"
  sequenceToken :: "string option"

text \<open>
  The response dictionary of an accepted \<open>put_log_events\<close>; a field is \<open>None\<close> when
  the key is absent.
\<close>

record response =
  nextSequenceToken :: "string option"
  rejectedLogEventsInfo :: "string option"

text \<open>
  Exceptions. A \<open>ClientError\<close> carries \<open>e.response["Error"]["Code"]\<close> and
  \<open>e.response["Error"]["Message"]\<close>, each \<open>None\<close> when the key (or the whole
  \<open>"Error"\<close> entry) is absent.
\<close>

datatype exn =
    ClientError "string option" "string option"
  | KeyError
  | UnboundLocalError
  | DeliveryException response
  | OtherError string

text \<open>
  The remote service is a parameter: three operations over a service state \<open>'r\<close>, each
  returning the exception it raises or its result. The client keeps the history of the
  calls made, each with what came back: what the program does to the outside world.
\<close>

record 'r cwl_api =
  create_log_group :: "string \<Rightarrow> 'r \<Rightarrow> (exn + unit) \<times> 'r"
  create_log_stream :: "string \<Rightarrow> string \<Rightarrow> 'r \<Rightarrow> (exn + unit) \<times> 'r"
  put_log_events :: "request \<Rightarrow> 'r \<Rightarrow> (exn + response) \<times> 'r"

datatype call =
    CreateLogGroup string "exn + unit"
  | CreateLogStream string string "exn + unit"
  | PutLogEvents request "exn + response"

record 'r client =
  service :: 'r
  calls :: "call list"

definition call_create_log_group ::
  "'r cwl_api \<Rightarrow> string \<Rightarrow> 'r client \<Rightarrow> (exn + unit) \<times> 'r client" where
  "call_create_log_group api g c =
     (case create_log_group api g (service c) of
        (res, s') \<Rightarrow> (res, \<lparr>service = s', calls = calls c @ [CreateLogGroup g res]\<rparr>))"

definition call_create_log_stream ::
  "'r cwl_api \<Rightarrow> string \<Rightarrow> string \<Rightarrow> 'r client \<Rightarrow> (exn + unit) \<times> 'r client" where
  "call_create_log_stream api g s c =
     (case create_log_stream api g s (service c) of
        (res, s') \<Rightarrow> (res, \<lparr>service = s', calls = calls c @ [CreateLogStream g s res]\<rparr>))"

definition call_put_log_events ::
  "'r cwl_api \<Rightarrow> request \<Rightarrow> 'r client \<Rightarrow> (exn + response) \<times> 'r client" where
  "call_put_log_events api kwargs c =
     (case put_log_events api kwargs (service c) of
        (res, s') \<Rightarrow> (res, \<lparr>service = s', calls = calls c @ [PutLogEvents kwargs res]\<rparr>))"

text \<open>The arguments a worker thread is started with.\<close>

record thread =
  thread_stream :: string
  thread_send_interval :: int
  thread_max_batch_size :: int
  thread_max_batch_count :: int
  daemon :: bool
  started :: bool

text \<open>
  The handler object. \<open>queues\<close> is a dictionary iterated by \<open>flush\<close>, kept as an
  association list in insertion order; \<open>sequence_tokens\<close> maps a stream to its token,
  \<open>Some None\<close> being the Python value \<open>None\<close> stored under the key.
\<close>

record 'r handler =
  log_group :: string
  stream_name :: "string option"
  use_queues :: bool
  send_interval :: int
  max_batch_size :: int
  max_batch_count :: int
  queues :: "(string \<times> queue) list"
  sequence_tokens :: "string \<rightharpoonup> string option"
  threads :: "thread list"
  shutting_down :: bool
  cwl_client :: "'r client"
  warnings :: "string list"

section \<open>Idempotent creation\<close>

definition idempotent_create ::
  "('c \<Rightarrow> (exn + unit) \<times> 'c) \<Rightarrow> 'c \<Rightarrow> (exn + unit) \<times> 'c" where
  "idempotent_create callable c =
     (case callable c of
        (Inl (ClientError code msg), c') \<Rightarrow>
          (if code \<noteq> Some ''ResourceAlreadyExistsException''
           then (Inl (ClientError code msg), c')
           else (Inr (), c'))
      | (res, c') \<Rightarrow> (res, c'))"

text \<open>
  The constructor. It fails, building no handler, when the group creation raises.
\<close>

definition init ::
  "'r cwl_api \<Rightarrow> string \<Rightarrow> string option \<Rightarrow> bool \<Rightarrow> int \<Rightarrow> int \<Rightarrow> int \<Rightarrow> bool \<Rightarrow> 'r
     \<Rightarrow> exn + 'r handler" where
  "init api lg sn uq si mbs mbc create s =
     (let self = \<lparr>log_group = lg, stream_name = sn, use_queues = uq, send_interval = si,
                  max_batch_size = mbs, max_batch_count = mbc, queues = [],
                  sequence_tokens = Map.empty, threads = [], shutting_down = False,
                  cwl_client = \<lparr>service = s, calls = []\<rparr>, warnings = []\<rparr>
      in if create
         then (case idempotent_create (call_create_log_group api lg) (cwl_client self) of
                 (Inl e, c') \<Rightarrow> Inl e
               | (Inr _, c') \<Rightarrow> Inr (self\<lparr>cwl_client := c'\<rparr>))
         else Inr self)"

section \<open>The submitter\<close>

text \<open>\<open>s.rsplit(" ", 1)[-1]\<close>: what follows the last space, or all of \<open>s\<close> without one.\<close>

definition rsplit_last :: "string \<Rightarrow> string" where
  "rsplit_last s = rev (takeWhile (\<lambda>c. c \<noteq> CHR '' '') (rev s))"

definition stale_token_codes :: "string list" where
  "stale_token_codes = [''DataAlreadyAcceptedException'', ''InvalidSequenceTokenException'']"

text \<open>
  The loop \<open>for retry in range(max_retries)\<close>. The result is the exception that left
  the loop, or the response bound at the \<open>break\<close>, \<open>None\<close> when the range ran out and
  \<open>response\<close> was never bound.
\<close>

fun put_retry ::
  "'r cwl_api \<Rightarrow> request \<Rightarrow> nat \<Rightarrow> 'r client \<Rightarrow> (exn + response option) \<times> 'r client" where
  "put_retry api kwargs 0 c = (Inr None, c)"
| "put_retry api kwargs (Suc n) c =
     (case call_put_log_events api kwargs c of
        (Inr resp, c') \<Rightarrow> (Inr (Some resp), c')
      | (Inl (ClientError code msg), c') \<Rightarrow>
          (if code \<in> Some ` set stale_token_codes
           then (case msg of
                   None \<Rightarrow> (Inl KeyError, c')
                 | Some m \<Rightarrow>
                     put_retry api (kwargs\<lparr>sequenceToken := Some (rsplit_last m)\<rparr>) n c')
           else (Inl (ClientError code msg), c'))
      | (Inl e, c') \<Rightarrow> (Inl e, c'))"

definition submit_batch ::
  "'r cwl_api \<Rightarrow> event list \<Rightarrow> string \<Rightarrow> nat \<Rightarrow> 'r handler \<Rightarrow> (exn + unit) \<times> 'r handler" where
  "submit_batch api batch sn max_retries self =
     (if length batch < 1 then (Inr (), self)
      else
        let sorted_batch = sort_key timestamp batch;
            kwargs = \<lparr>logGroupName = log_group self, logStreamName = sn,
                      logEvents = sorted_batch, sequenceToken = None\<rparr>
        in case sequence_tokens self sn of
             None \<Rightarrow> (Inl KeyError, self)
           | Some tok \<Rightarrow>
               (let kwargs = (if tok \<noteq> None then kwargs\<lparr>sequenceToken := tok\<rparr> else kwargs)
                in case put_retry api kwargs max_retries (cwl_client self) of
                     (Inl e, c') \<Rightarrow> (Inl e, self\<lparr>cwl_client := c'\<rparr>)
                   | (Inr None, c') \<Rightarrow> (Inl UnboundLocalError, self\<lparr>cwl_client := c'\<rparr>)
                   | (Inr (Some resp), c') \<Rightarrow>
                       (if rejectedLogEventsInfo resp \<noteq> None
                        then (Inl (DeliveryException resp), self\<lparr>cwl_client := c'\<rparr>)
                        else (Inr (), self\<lparr>cwl_client := c'\<rparr>))))"

section \<open>Emitting a record\<close>

text \<open>
  A log record as \<open>emit\<close> reads it: the logger's name, the creation time already
  converted by \<open>int(message.created * 1000)\<close>, and the text that \<open>self.format\<close> gives
  (passed through \<open>json.dumps\<close> when it is a mapping).
\<close>

record log_record =
  name :: string
  created_ms :: int
  formatted :: unicode

definition new_thread :: "string \<Rightarrow> 'r handler \<Rightarrow> thread" where
  "new_thread sn self =
     \<lparr>thread_stream = sn, thread_send_interval = send_interval self,
      thread_max_batch_size = max_batch_size self,
      thread_max_batch_count = max_batch_count self, daemon = True, started = True\<rparr>"

text \<open>\<open>self.queues[sn].put(msg)\<close>: the queue stored under the key is the one changed.\<close>

definition queue_put :: "string \<Rightarrow> queue_item \<Rightarrow> (string \<times> queue) list \<Rightarrow> (string \<times> queue) list" where
  "queue_put sn x qs = map (\<lambda>(k, q). if k = sn then (k, put x q) else (k, q)) qs"

definition shutdown_warning :: string where
  "shutdown_warning = ''Received message after logging system shutdown''"

definition emit ::
  "'r cwl_api \<Rightarrow> log_record \<Rightarrow> 'r handler \<Rightarrow> (exn + unit) \<times> 'r handler" where
  "emit api record self =
     (let sn = (case stream_name self of None \<Rightarrow> name record | Some s \<Rightarrow> s)
      in case (if sequence_tokens self sn = None
               then (case idempotent_create (call_create_log_stream api (log_group self) sn)
                            (cwl_client self) of
                       (Inl e, c') \<Rightarrow> (Inl e, self\<lparr>cwl_client := c'\<rparr>)
                     | (Inr _, c') \<Rightarrow>
                         (Inr (), self\<lparr>cwl_client := c',
                                       sequence_tokens := (sequence_tokens self)(sn \<mapsto> None)\<rparr>))
               else (Inr (), self)) of
           (Inl e, self1) \<Rightarrow> (Inl e, self1)
         | (Inr _, self1) \<Rightarrow>
             (let msg = \<lparr>timestamp = created_ms record, message = formatted record\<rparr>
              in if use_queues self1
                 then
                   (let self2 =
                      (if sn \<notin> fst ` set (queues self1)
                       then self1\<lparr>queues := queues self1 @ [(sn, Queue)],
                                  threads := threads self1 @ [new_thread sn self1]\<rparr>
                       else self1)
                    in if shutting_down self2
                       then (Inr (), self2\<lparr>warnings := warnings self2 @ [shutdown_warning]\<rparr>)
                       else (Inr (), self2\<lparr>queues := queue_put sn (Msg msg) (queues self2)\<rparr>))
                 else submit_batch api [msg] sn 5 self1))"

section \<open>The batch accumulator\<close>

text \<open>The accounted size of an event, the local function \<open>size\<close> of \<open>batch_sender\<close>.\<close>

definition size_msg :: "event \<Rightarrow> int" where
  "size_msg msg = int (length (message msg)) + 26"

text \<open>
  One turn of the inner loop starts with \<open>my_queue.get\<close>: it times out (\<open>Empty\<close>) or
  gives an item. The clock is not modelled: the outcome of the test
  \<open>time.time() >= cur_batch_deadline\<close> made after that \<open>get\<close> comes with the item, so
  that a list of polls fixes one interleaving of producers, clock and worker, and a
  statement about all lists covers every timing.
\<close>

datatype poll = Empty | Got queue_item bool

text \<open>
  How a run over a finite list of polls ends: the worker waits in \<open>get\<close> with the batch
  it holds, it left the outer loop at the sentinel, or an exception reached the
  \<open>except\<close> clause of \<open>batch_sender\<close>.
\<close>

datatype worker_status = Waiting "event list" | Terminated | Crashed exn

text \<open>
  The result of a run: how it ended, the batches handed to the submitter in order, the
  number of \<open>task_done\<close> calls, and the handler afterwards.
\<close>

record 'r run =
  status :: worker_status
  submitted :: "event list list"
  tasks_done :: nat
  final :: "'r handler"

definition handed :: "event list \<Rightarrow> nat \<Rightarrow> 'r run \<Rightarrow> 'r run" where
  "handed b n r = r\<lparr>submitted := b # submitted r, tasks_done := n + tasks_done r\<rparr>"

definition acked :: "nat \<Rightarrow> 'r run \<Rightarrow> 'r run" where
  "acked n r = r\<lparr>tasks_done := n + tasks_done r\<rparr>"

text \<open>
  \<open>batch_sender_outer\<close> is one turn of \<open>while msg != self.END\<close>, entered with the value
  of \<open>msg\<close> (\<open>None\<close>, or the event that closed the batch before);
  \<open>batch_sender_inner\<close> is \<open>while True\<close> with the local variables of the batch.
\<close>

fun batch_sender_outer ::
  "'r cwl_api \<Rightarrow> string \<Rightarrow> int \<Rightarrow> int \<Rightarrow> event option \<Rightarrow> poll list \<Rightarrow> 'r handler \<Rightarrow> 'r run"
and batch_sender_inner ::
  "'r cwl_api \<Rightarrow> string \<Rightarrow> int \<Rightarrow> int \<Rightarrow> event list \<Rightarrow> int \<Rightarrow> int \<Rightarrow> poll list \<Rightarrow> 'r handler
     \<Rightarrow> 'r run"
where
  "batch_sender_outer api sn mbs mbc msg ps self =
     (let cur_batch = (case msg of None \<Rightarrow> [] | Some m \<Rightarrow> [m]);
          cur_batch_size = sum_list (map size_msg cur_batch);
          cur_batch_msg_count = int (length cur_batch)
      in batch_sender_inner api sn mbs mbc cur_batch cur_batch_size cur_batch_msg_count ps self)"
| "batch_sender_inner api sn mbs mbc cur_batch sz cnt [] self =
     \<lparr>status = Waiting cur_batch, submitted = [], tasks_done = 0, final = self\<rparr>"
| "batch_sender_inner api sn mbs mbc cur_batch sz cnt (Empty # ps) self =
     (case submit_batch api cur_batch sn 5 self of
        (Inl e, self') \<Rightarrow>
          \<lparr>status = Crashed e, submitted = [cur_batch], tasks_done = 0, final = self'\<rparr>
      | (Inr _, self') \<Rightarrow>
          handed cur_batch 0 (batch_sender_outer api sn mbs mbc None ps self'))"
| "batch_sender_inner api sn mbs mbc cur_batch sz cnt (Got END late # ps) self =
     (case submit_batch api cur_batch sn 5 self of
        (Inl e, self') \<Rightarrow>
          \<lparr>status = Crashed e, submitted = [cur_batch], tasks_done = 0, final = self'\<rparr>
      | (Inr _, self') \<Rightarrow>
          \<lparr>status = Terminated, submitted = [cur_batch], tasks_done = 1, final = self'\<rparr>)"
| "batch_sender_inner api sn mbs mbc cur_batch sz cnt (Got (Msg m) late # ps) self =
     (if sz + size_msg m > mbs \<or> cnt \<ge> mbc \<or> late
      then (case submit_batch api cur_batch sn 5 self of
              (Inl e, self') \<Rightarrow>
                \<lparr>status = Crashed e, submitted = [cur_batch], tasks_done = 0, final = self'\<rparr>
            | (Inr _, self') \<Rightarrow>
                handed cur_batch 1 (batch_sender_outer api sn mbs mbc (Some m) ps self'))
      else acked 1 (batch_sender_inner api sn mbs mbc (cur_batch @ [m]) (sz + size_msg m)
                      (cnt + 1) ps self))"

text \<open>The thread's entry point: \<open>msg = None\<close>, then the outer loop.\<close>

definition batch_sender ::
  "'r cwl_api \<Rightarrow> string \<Rightarrow> int \<Rightarrow> int \<Rightarrow> poll list \<Rightarrow> 'r handler \<Rightarrow> 'r run" where
  "batch_sender api sn mbs mbc ps self = batch_sender_outer api sn mbs mbc None ps self"

section \<open>Shutdown\<close>



section \<open>The accounting of the remote protocol\<close>

text \<open>
  The class documentation quotes the service: the size of a batch "is calculated as the
  sum of all event messages in UTF-8, plus 26 bytes for each log event". This is that
  measure, written from those words, to compare \<open>size_msg\<close> with.
\<close>

definition utf8_codepoint :: "codepoint \<Rightarrow> nat list" where
  "utf8_codepoint cp =
     (if cp < 128 then [cp]
      else if cp < 2048 then [192 + cp div 64, 128 + cp mod 64]
      else if cp < 65536 then [224 + cp div 4096, 128 + cp div 64 mod 64, 128 + cp mod 64]
      else [240 + cp div 262144, 128 + cp div 4096 mod 64, 128 + cp div 64 mod 64,
            128 + cp mod 64])"

definition utf8_encode :: "unicode \<Rightarrow> nat list" where
  "utf8_encode s = concat (map utf8_codepoint s)"

definition protocol_size :: "event \<Rightarrow> int" where
  "protocol_size msg = int (length (utf8_encode (message msg))) + 26"

section \<open>Observations\<close>

text \<open>The remote calls made between two states of the handler.\<close>

definition new_calls :: "'r handler \<Rightarrow> 'r handler \<Rightarrow> call list" where
  "new_calls self self' = drop (length (calls (cwl_client self))) (calls (cwl_client self'))"

text \<open>The events of a list of polls, in the order the worker received them.\<close>

fun received :: "poll list \<Rightarrow> event list" where
  "received [] = []"
| "received (Got (Msg m) late # ps) = m # received ps"
| "received (p # ps) = received ps"

text \<open>The stream a record goes to: the fixed stream of the handler, or the logger's name.\<close>

definition stream_of :: "'r handler \<Rightarrow> log_record \<Rightarrow> string" where
  "stream_of self record = (case stream_name self of None \<Rightarrow> name record | Some s \<Rightarrow> s)"

text \<open>The client after the \<open>create_log_stream\<close> call of \<open>emit\<close> that came back with \<open>out\<close>.\<close>

definition created :: "'r handler \<Rightarrow> string \<Rightarrow> (exn + unit) \<Rightarrow> 'r \<Rightarrow> 'r client" where
  "created self sn out r' =
     \<lparr>service = r', calls = calls (cwl_client self) @ [CreateLogStream (log_group self) sn out]\<rparr>"

text \<open>The two classes of rejection the code tells from all others.\<close>

fun already_exists :: "exn \<Rightarrow> bool" where
  "already_exists (ClientError (Some code) m) = (code = ''ResourceAlreadyExistsException'')"
| "already_exists e = False"

fun stale_rejection :: "exn \<Rightarrow> bool" where
  "stale_rejection (ClientError (Some code) m) =
     (code = ''DataAlreadyAcceptedException'' \<or> code = ''InvalidSequenceTokenException'')"
| "stale_rejection e = False"

text \<open>
  \<open>last_word m tok\<close>: the token \<open>tok\<close> is the last word of the error message \<open>m\<close>. It
  holds no space, and the message is the token alone or ends with a space followed by
  the token.
\<close>

definition last_word :: "string \<Rightarrow> string \<Rightarrow> bool" where
  "last_word m tok \<longleftrightarrow>
     CHR '' '' \<notin> set tok \<and> (m = tok \<or> (\<exists>pre. m = pre @ CHR '' '' # tok))"

text \<open>
  \<open>corrects c c'\<close>: the call \<open>c\<close> was rejected with one of the two stale-token codes
  and a message, and \<open>c'\<close> is the same request again with the last word of that message
  as its token. \<open>retry_chain\<close>: every call of the list but the first stands in this
  relation to the call before it.
\<close>

fun corrects :: "call \<Rightarrow> call \<Rightarrow> bool" where
  "corrects (PutLogEvents kw (Inl (ClientError (Some code) (Some m)))) (PutLogEvents kw' r) =
     ((code = ''DataAlreadyAcceptedException'' \<or> code = ''InvalidSequenceTokenException'') \<and>
      (\<exists>tok. last_word m tok \<and> kw' = kw\<lparr>sequenceToken := Some tok\<rparr>))"
| "corrects c c' = False"


fun retry_chain :: "call list \<Rightarrow> bool" where
  "retry_chain (c1 # c2 # cs) = (corrects c1 c2 \<and> retry_chain (c2 # cs))"
| "retry_chain cs = True"

text \<open>The request of the first attempt of a submission, for the stored token \<open>tok\<close>.\<close>

definition first_request ::
  "'r handler \<Rightarrow> event list \<Rightarrow> string \<Rightarrow> string option \<Rightarrow> request" where
  "first_request self batch sn tok =
     \<lparr>logGroupName = log_group self, logStreamName = sn,
      logEvents = sort_key timestamp batch, sequenceToken = tok\<rparr>"

text \<open>
  What the calls \<open>cs\<close> made by the retry loop and its result \<open>res\<close> have to do with each
  other, for the first request \<open>kwargs\<close> and the bound \<open>n\<close>.
\<close>

definition retry_trace ::
  "request \<Rightarrow> nat \<Rightarrow> call list \<Rightarrow> (exn + response option) \<Rightarrow> bool" where
  "retry_trace kwargs n cs res \<longleftrightarrow>
     length cs \<le> n \<and> (0 < n \<longrightarrow> cs \<noteq> []) \<and> retry_chain cs \<and>
     (cs \<noteq> [] \<longrightarrow> (\<exists>r. hd cs = PutLogEvents kwargs r)) \<and>
     (\<forall>x \<in> set cs. \<exists>kw r. x = PutLogEvents kw r \<and> logEvents kw = logEvents kwargs) \<and>
     (\<forall>kw e. cs \<noteq> [] \<and> last cs = PutLogEvents kw (Inl e) \<and> \<not> stale_rejection e
        \<longrightarrow> res = Inl e) \<and>
     (\<forall>kw resp. cs \<noteq> [] \<and> last cs = PutLogEvents kw (Inr resp) \<longrightarrow> res = Inr (Some resp)) \<and>
     (\<forall>kw code m. cs \<noteq> [] \<and> last cs = PutLogEvents kw (Inl (ClientError code (Some m))) \<and>
        stale_rejection (ClientError code (Some m)) \<longrightarrow> length cs = n)"

section \<open>Example services and handlers\<close>

text \<open>A service that accepts everything and answers each submission with token \<open>T1\<close>.\<close>

definition accepting :: "unit cwl_api" where
  "accepting =
     \<lparr>create_log_group = (\<lambda>g r. (Inr (), r)),
      create_log_stream = (\<lambda>g s r. (Inr (), r)),
      put_log_events =
        (\<lambda>kwargs r. (Inr \<lparr>nextSequenceToken = Some ''T1'', rejectedLogEventsInfo = None\<rparr>, r))\<rparr>"

text \<open>A queueing handler that knows the stream \<open>s\<close>, with no token yet.\<close>

definition handler_s :: "'r \<Rightarrow> 'r handler" where
  "handler_s r =
     \<lparr>log_group = ''g'', stream_name = None, use_queues = True, send_interval = 60,
      max_batch_size = 100, max_batch_count = 3, queues = [(''s'', Queue)],
      sequence_tokens = [''s'' \<mapsto> None], threads = [], shutting_down = False,
      cwl_client = \<lparr>service = r, calls = []\<rparr>, warnings = []\<rparr>"

definition ev :: "int \<Rightarrow> unicode \<Rightarrow> event" where
  "ev t s = \<lparr>timestamp = t, message = s\<rparr>"



text \<open>
  A service where the group \<open>g\<close> and the stream \<open>s\<close> exist already and nothing else
  may be created.
\<close>

definition refusing :: "unit cwl_api" where
  "refusing =
     \<lparr>create_log_group =
        (\<lambda>g r. (Inl (ClientError
                       (Some (if g = ''g'' then ''ResourceAlreadyExistsException''
                              else ''AccessDeniedException'')) None), r)),
      create_log_stream =
        (\<lambda>g s r. (Inl (ClientError
                         (Some (if s = ''s'' then ''ResourceAlreadyExistsException''
                                else ''AccessDeniedException'')) None), r)),
      put_log_events =
        (\<lambda>kwargs r. (Inr \<lparr>nextSequenceToken = Some ''T1'', rejectedLogEventsInfo = None\<rparr>, r))\<rparr>"

text \<open>A handler that has seen no stream yet.\<close>

definition handler_new :: "bool \<Rightarrow> bool \<Rightarrow> 'r \<Rightarrow> 'r handler" where
  "handler_new uq down r =
     \<lparr>log_group = ''g'', stream_name = None, use_queues = uq, send_interval = 60,
      max_batch_size = 100, max_batch_count = 3, queues = [],
      sequence_tokens = Map.empty, threads = [], shutting_down = down,
      cwl_client = \<lparr>service = r, calls = []\<rparr>, warnings = []\<rparr>"

definition rec :: "string \<Rightarrow> int \<Rightarrow> unicode \<Rightarrow> log_record" where
  "rec n t s = \<lparr>name = n, created_ms = t, formatted = s\<rparr>"

text \<open>The two errors of the refusing service.\<close>

definition exists_error :: exn where
  "exists_error = ClientError (Some ''ResourceAlreadyExistsException'') None"

definition denied_error :: exn where
  "denied_error = ClientError (Some ''AccessDeniedException'') None"

text \<open>Requests to stream \<open>s\<close> of group \<open>g\<close>.\<close>

definition request_s :: "string option \<Rightarrow> event list \<Rightarrow> request" where
  "request_s tok evs =
     \<lparr>logGroupName = ''g'', logStreamName = ''s'', logEvents = evs, sequenceToken = tok\<rparr>"






definition forbidden_error :: exn where
  "forbidden_error =
     ClientError (Some ''AccessDeniedException'') (Some ''User is not authorized'')"

definition forbidding :: "unit cwl_api" where
  "forbidding =
     \<lparr>create_log_group = (\<lambda>g r. (Inr (), r)),
      create_log_stream = (\<lambda>g s r. (Inr (), r)),
      put_log_events = (\<lambda>kwargs r. (Inl forbidden_error, r))\<rparr>"




text \<open>Events out of timestamp order, two of them with the same timestamp.\<close>

definition unordered :: "event list" where
  "unordered = [ev 5 [97], ev 2 [98], ev 8 [99], ev 2 [100]]"

section \<open>Observations of a worker run\<close>

text \<open>The poll that hands the worker the shutdown sentinel.\<close>

fun sentinel :: "poll \<Rightarrow> bool" where
  "sentinel (Got END late) = True"
| "sentinel p = False"

text \<open>
  The accounting invariant of the two loops, for a run entered with the events \<open>pre\<close>
  already in hand: a run that terminated has handed over \<open>pre\<close> and the events received
  before the first sentinel, and has reported each of them and the sentinel; a run that
  waits has handed over or still holds \<open>pre\<close> and all the events received.
\<close>

definition accounts :: "event list \<Rightarrow> poll list \<Rightarrow> 'r run \<Rightarrow> bool" where
  "accounts pre ps r \<longleftrightarrow>
     (status r = Terminated \<longrightarrow>
        concat (submitted r) = pre @ received (takeWhile (\<lambda>p. \<not> sentinel p) ps) \<and>
        tasks_done r = Suc (length (received (takeWhile (\<lambda>p. \<not> sentinel p) ps))) \<and>
        (\<exists>p \<in> set ps. sentinel p)) \<and>
     (\<forall>b. status r = Waiting b \<longrightarrow>
        concat (submitted r) @ b = pre @ received ps \<and>
        tasks_done r = length (received ps) \<and>
        (\<forall>p \<in> set ps. \<not> sentinel p))"



section \<open>Example runs of the worker\<close>

text \<open>
  Four one-character events \<open>A\<close>, \<open>B\<close>, \<open>C\<close>, \<open>D\<close> arriving at once, then a timeout
  and the sentinel, with a limit of three events to a batch.
\<close>

definition four_events :: "poll list" where
  "four_events =
     [Got (Msg (ev 0 [65])) False, Got (Msg (ev 0 [66])) False, Got (Msg (ev 0 [67])) False,
      Got (Msg (ev 0 [68])) False, Empty]"

definition count_run :: "unit run" where
  "count_run =
     batch_sender accepting ''s'' 1048576 3 (four_events @ [Got END False]) (handler_s ())"




text \<open>
  An event, a timeout and a second event, then the sentinel, against the service that
  rejects every submission for lack of permission.
\<close>

definition interrupted :: "poll list" where
  "interrupted = [Got (Msg (ev 0 [65])) False, Empty, Got (Msg (ev 0 [66])) False]"

definition crash_run :: "unit run" where
  "crash_run =
     batch_sender forbidding ''s'' 1048576 3 (interrupted @ [Got END False]) (handler_s ())"


section \<open>The submitter: frame properties\<close>

lemma put_retry_numeral:
  "put_retry api kwargs (numeral k) c =
     (case call_put_log_events api kwargs c of
        (Inr resp, c') \<Rightarrow> (Inr (Some resp), c')
      | (Inl (ClientError code msg), c') \<Rightarrow>
          (if code \<in> Some ` set stale_token_codes
           then (case msg of
                   None \<Rightarrow> (Inl KeyError, c')
                 | Some m \<Rightarrow>
                     put_retry api (kwargs\<lparr>sequenceToken := Some (rsplit_last m)\<rparr>)
                       (pred_numeral k) c')
           else (Inl (ClientError code msg), c'))
      | (Inl e, c') \<Rightarrow> (Inl e, c'))"
  by (simp add: numeral_eq_Suc)

lemma submit_batch_keeps_tokens:
  "sequence_tokens (snd (submit_batch api batch sn n self)) = sequence_tokens self"
  by (simp add: submit_batch_def Let_def split: option.splits prod.splits sum.splits)

text \<open>
  C9. Handing an empty batch to the submitter does nothing: it returns at once, with
  the handler as it was, and so with the same history of remote calls, the same tokens
  and the same remote service state, whatever the stream and the retry bound are (even
  for a stream the handler has never seen).
\<close>

theorem submit_batch_empty_noop:
  "submit_batch api [] sn max_retries self = (Inr (), self)"
  by (simp add: submit_batch_def)

text \<open>
  C4. The size the accumulator accounts for an event is the number of code points of
  its message plus 26, which is not the UTF-8 length plus 26 as soon as the message has
  a character outside ASCII: for the one-character message U+00E9 the code counts 27,
  the protocol 28.
\<close>

theorem size_msg_counts_code_points:
  "size_msg (ev 0 [233]) = 27 \<and> protocol_size (ev 0 [233]) = 28"
  by (simp add: size_msg_def protocol_size_def utf8_encode_def utf8_codepoint_def ev_def)

text \<open>
  C1. The service accepts a submission on stream \<open>s\<close> and returns the token \<open>T1\<close>,
  with no rejected events. The submission succeeds, yet the token stored for \<open>s\<close> is
  still \<open>None\<close>, and the next submission on \<open>s\<close> carries no token.
\<close>

theorem submit_batch_drops_returned_token:
  "(case submit_batch accepting [ev 1 [97]] ''s'' 5 (handler_s ()) of
      (res, self1) \<Rightarrow>
        res = Inr () \<and>
        new_calls (handler_s ()) self1 =
          [PutLogEvents
             \<lparr>logGroupName = ''g'', logStreamName = ''s'', logEvents = [ev 1 [97]],
              sequenceToken = None\<rparr>
             (Inr \<lparr>nextSequenceToken = Some ''T1'', rejectedLogEventsInfo = None\<rparr>)] \<and>
        sequence_tokens self1 ''s'' = Some None \<and>
        (case submit_batch accepting [ev 2 [98]] ''s'' 5 self1 of
           (res2, self2) \<Rightarrow>
             res2 = Inr () \<and>
             map (\<lambda>c. case c of PutLogEvents kwargs r \<Rightarrow> sequenceToken kwargs | _ \<Rightarrow> None)
               (new_calls self1 self2) = [None]))"
  by (simp add: submit_batch_def accepting_def handler_s_def ev_def new_calls_def
      call_put_log_events_def put_retry_numeral Let_def)

section \<open>The retry loop\<close>

lemma stale_rejection_iff:
  "stale_rejection e \<longleftrightarrow>
     (\<exists>code m. e = ClientError code m \<and> code \<in> Some ` set stale_token_codes)"
  by (cases e rule: stale_rejection.cases) (auto simp: stale_token_codes_def)

lemma last_word_rsplit_last: "last_word m tok \<longleftrightarrow> tok = rsplit_last m"
proof
  assume lw: "last_word m tok"
  then have ns: "\<forall>c \<in> set (rev tok). c \<noteq> CHR '' ''" by (auto simp: last_word_def)
  from lw consider "m = tok" | pre where "m = pre @ CHR '' '' # tok"
    by (auto simp: last_word_def)
  then show "tok = rsplit_last m"
  proof cases
    case 1
    with ns show ?thesis by (simp add: rsplit_last_def takeWhile_eq_all_conv[THEN iffD2])
  next
    case 2
    then have "rev m = rev tok @ CHR '' '' # rev pre" by simp
    moreover have "takeWhile (\<lambda>c. c \<noteq> CHR '' '') (rev tok @ CHR '' '' # rev pre) =
        rev tok @ takeWhile (\<lambda>c. c \<noteq> CHR '' '') (CHR '' '' # rev pre)"
      by (rule takeWhile_append2) (use ns in auto)
    ultimately show ?thesis by (simp add: rsplit_last_def)
  qed
next
  let ?P = "\<lambda>c. c \<noteq> CHR '' ''"
  assume tok: "tok = rsplit_last m"
  then have ns: "CHR '' '' \<notin> set tok"
    by (auto simp: rsplit_last_def dest: set_takeWhileD)
  have m: "m = rev (dropWhile ?P (rev m)) @ tok"
    unfolding tok rsplit_last_def rev_append[symmetric] by simp
  show "last_word m tok"
  proof (cases "dropWhile ?P (rev m)")
    case Nil
    with m ns show ?thesis by (simp add: last_word_def)
  next
    case (Cons y ys)
    then have "\<not> ?P y" using hd_dropWhile[of ?P "rev m"] by simp
    with Cons m have "m = rev ys @ CHR '' '' # tok" by simp
    with ns show ?thesis by (auto simp: last_word_def)
  qed
qed

lemma put_retry_accepted:
  "put_log_events api kwargs (service c) = (Inr resp, s') \<Longrightarrow>
   put_retry api kwargs (Suc n) c =
     (Inr (Some resp), \<lparr>service = s', calls = calls c @ [PutLogEvents kwargs (Inr resp)]\<rparr>)"
  by (simp add: call_put_log_events_def)

lemma put_retry_fatal:
  "put_log_events api kwargs (service c) = (Inl e, s') \<Longrightarrow> \<not> stale_rejection e \<Longrightarrow>
   put_retry api kwargs (Suc n) c =
     (Inl e, \<lparr>service = s', calls = calls c @ [PutLogEvents kwargs (Inl e)]\<rparr>)"
  by (cases e) (auto simp: call_put_log_events_def stale_rejection_iff)

lemma put_retry_no_message:
  "put_log_events api kwargs (service c) = (Inl (ClientError code None), s') \<Longrightarrow>
   stale_rejection (ClientError code None) \<Longrightarrow>
   put_retry api kwargs (Suc n) c =
     (Inl KeyError,
      \<lparr>service = s', calls = calls c @ [PutLogEvents kwargs (Inl (ClientError code None))]\<rparr>)"
  by (auto simp: call_put_log_events_def stale_rejection_iff)

lemma put_retry_stale:
  "put_log_events api kwargs (service c) = (Inl (ClientError code (Some m)), s') \<Longrightarrow>
   stale_rejection (ClientError code (Some m)) \<Longrightarrow>
   put_retry api kwargs (Suc n) c =
     put_retry api (kwargs\<lparr>sequenceToken := Some (rsplit_last m)\<rparr>) n
       \<lparr>service = s',
        calls = calls c @ [PutLogEvents kwargs (Inl (ClientError code (Some m)))]\<rparr>"
  by (auto simp: call_put_log_events_def stale_rejection_iff)

lemma retry_trace_single:
  "0 < n \<Longrightarrow> (\<forall>e. out = Inl e \<and> \<not> stale_rejection e \<longrightarrow> res = Inl e) \<Longrightarrow>
   (\<forall>resp. out = Inr resp \<longrightarrow> res = Inr (Some resp)) \<Longrightarrow>
   (\<forall>code m. out = Inl (ClientError code (Some m)) \<and>
      stale_rejection (ClientError code (Some m)) \<longrightarrow> n = 1) \<Longrightarrow>
   retry_trace kwargs n [PutLogEvents kwargs out] res"
  by (auto simp: retry_trace_def)

lemma retry_trace_cons:
  assumes "retry_trace (kwargs\<lparr>sequenceToken := Some (rsplit_last m)\<rparr>) n cs res"
    and "stale_rejection (ClientError code (Some m))"
  shows "retry_trace kwargs (Suc n)
           (PutLogEvents kwargs (Inl (ClientError code (Some m))) # cs) res"
proof (cases cs)
  case Nil
  with assms show ?thesis by (auto simp: retry_trace_def)
next
  case (Cons x xs)
  with assms(1) obtain r where
    x: "x = PutLogEvents (kwargs\<lparr>sequenceToken := Some (rsplit_last m)\<rparr>) r"
    by (auto simp: retry_trace_def)
  from assms(2) obtain cd where cd: "code = Some cd"
    "cd = ''DataAlreadyAcceptedException'' \<or> cd = ''InvalidSequenceTokenException''"
    by (cases code) auto
  have "last_word m (rsplit_last m)" by (simp add: last_word_rsplit_last)
  with cd x have "corrects (PutLogEvents kwargs (Inl (ClientError code (Some m)))) x"
    by auto
  with assms(1) Cons x cd show ?thesis
    by (auto simp: retry_trace_def)
qed

lemma put_retry_trace:
  "put_retry api kwargs n c = (res, c') \<Longrightarrow>
   \<exists>cs. calls c' = calls c @ cs \<and> retry_trace kwargs n cs res"
proof (induction n arbitrary: kwargs c)
  case 0
  then show ?case by (auto simp: retry_trace_def)
next
  case (Suc n)
  obtain out s' where out: "put_log_events api kwargs (service c) = (out, s')"
    by (cases "put_log_events api kwargs (service c)")
  let ?c1 = "\<lparr>service = s', calls = calls c @ [PutLogEvents kwargs out]\<rparr>"
  consider (ok) resp where "out = Inr resp"
    | (fatal) e where "out = Inl e" "\<not> stale_rejection e"
    | (nomsg) code where "out = Inl (ClientError code None)"
        "stale_rejection (ClientError code None)"
    | (stale) code m where "out = Inl (ClientError code (Some m))"
        "stale_rejection (ClientError code (Some m))"
  proof (cases out)
    case (Inl e)
    show ?thesis
    proof (cases "stale_rejection e")
      case True
      then obtain code msg where "e = ClientError code msg"
        by (auto simp: stale_rejection_iff)
      with True Inl nomsg stale show ?thesis by (cases msg) auto
    qed (use Inl fatal in auto)
  qed (use ok in auto)
  then show ?case
  proof cases
    case ok
    with out Suc.prems have "res = Inr (Some resp)" "c' = ?c1"
      by (simp_all add: put_retry_accepted del: put_retry.simps)
    with ok show ?thesis by (auto intro!: retry_trace_single)
  next
    case fatal
    with out Suc.prems have "res = Inl e" "c' = ?c1"
      by (simp_all add: put_retry_fatal del: put_retry.simps)
    with fatal show ?thesis by (auto intro!: retry_trace_single)
  next
    case nomsg
    with out Suc.prems have "res = Inl KeyError" "c' = ?c1"
      by (simp_all add: put_retry_no_message del: put_retry.simps)
    with nomsg show ?thesis by (auto intro!: retry_trace_single)
  next
    case stale
    with out Suc.prems
    have "put_retry api (kwargs\<lparr>sequenceToken := Some (rsplit_last m)\<rparr>) n ?c1 = (res, c')"
      by (simp add: put_retry_stale del: put_retry.simps)
    from Suc.IH[OF this] obtain cs where
      cs: "calls c' = calls ?c1 @ cs"
        "retry_trace (kwargs\<lparr>sequenceToken := Some (rsplit_last m)\<rparr>) n cs res"
      by auto
    from retry_trace_cons[OF cs(2) stale(2)] cs(1) stale(1) show ?thesis by auto
  qed
qed

lemma submit_batch_trace:
  assumes "submit_batch api batch sn n self = (res, self')"
  shows "new_calls self self' = [] \<and> (batch = [] \<or> sequence_tokens self sn = None) \<or>
         (\<exists>tok r. batch \<noteq> [] \<and> sequence_tokens self sn = Some tok \<and>
            retry_trace (first_request self batch sn tok) n (new_calls self self') r \<and>
            (\<forall>e. r = Inl e \<longrightarrow> res = Inl e))"
proof (cases "batch = [] \<or> sequence_tokens self sn = None")
  case True
  with assms show ?thesis
    by (auto simp: submit_batch_def new_calls_def Let_def split: if_splits)
next
  case False
  then obtain tok where tok: "batch \<noteq> []" "sequence_tokens self sn = Some tok" by auto
  obtain r c' where
    r: "put_retry api (first_request self batch sn tok) n (cwl_client self) = (r, c')"
    by (cases "put_retry api (first_request self batch sn tok) n (cwl_client self)")
  from assms tok r have self': "cwl_client self' = c'"
    and res: "\<forall>e. r = Inl e \<longrightarrow> res = Inl e"
    by (auto simp: submit_batch_def Let_def first_request_def
        split: sum.splits option.splits if_splits)
  from put_retry_trace[OF r] obtain cs where
    cs: "calls c' = calls (cwl_client self) @ cs"
      "retry_trace (first_request self batch sn tok) n cs r"
    by auto
  from cs self' have "new_calls self self' = cs" by (simp add: new_calls_def)
  with cs tok res show ?thesis by auto
qed

lemma idempotent_create_result:
  "callable c = (out, c') \<Longrightarrow>
   idempotent_create callable c =
     ((case out of Inl e \<Rightarrow> if already_exists e then Inr () else Inl e | Inr u \<Rightarrow> Inr u), c')"
proof (cases out)
  case (Inl e)
  assume "callable c = (out, c')"
  with Inl show ?thesis
    by (cases e rule: already_exists.cases) (auto simp: idempotent_create_def)
next
  case (Inr u)
  assume "callable c = (out, c')"
  with Inr show ?thesis by (simp add: idempotent_create_def)
qed














section \<open>What is sent\<close>

lemma submit_batch_sends_sorted:
  assumes "batch \<noteq> []" and "submit_batch api batch sn n self = (res, self')"
  shows "(0 < n \<and> sequence_tokens self sn \<noteq> None \<longrightarrow> new_calls self self' \<noteq> []) \<and>
         (\<forall>c \<in> set (new_calls self self').
            \<exists>kw r. c = PutLogEvents kw r \<and> logEvents kw = sort_key timestamp batch)"
  using submit_batch_trace[OF assms(2)] assms(1)
  by (auto simp: retry_trace_def first_request_def)

text \<open>
  C5. Every request that the submission of a non-empty batch sends (the first attempt and
  each retry) carries the batch stably sorted by timestamp: the timestamps are in
  non-decreasing order, and for every timestamp the events bearing it are those of the
  batch in the order of the batch, so nothing is lost, added or swapped among equals. A
  request is indeed sent as soon as the stream is known and one attempt is allowed.
\<close>

theorem submitted_events_stably_sorted:
  assumes "batch \<noteq> []" and "submit_batch api batch sn n self = (res, self')"
  shows "(0 < n \<and> sequence_tokens self sn \<noteq> None \<longrightarrow> new_calls self self' \<noteq> []) \<and>
         (\<forall>c \<in> set (new_calls self self').
            \<exists>kw r. c = PutLogEvents kw r \<and>
              sorted (map timestamp (logEvents kw)) \<and>
              (\<forall>t. filter (\<lambda>e. timestamp e = t) (logEvents kw) =
                    filter (\<lambda>e. timestamp e = t) batch) \<and>
              mset (logEvents kw) = mset batch)"
proof -
  have "sorted (map timestamp (sort_key timestamp batch))" by (rule sorted_sort_key)
  moreover have "\<forall>t. filter (\<lambda>e. timestamp e = t) (sort_key timestamp batch) =
                     filter (\<lambda>e. timestamp e = t) batch"
    by (simp add: sort_key_stable)
  moreover have "mset (sort_key timestamp batch) = mset batch" by simp
  ultimately show ?thesis
    using submit_batch_sends_sorted[OF assms] by fastforce
qed

lemma unordered_sent:
  "new_calls (handler_s ()) (snd (submit_batch accepting unordered ''s'' 5 (handler_s ()))) =
     [PutLogEvents (request_s None [ev 2 [98], ev 2 [100], ev 5 [97], ev 8 [99]])
        (Inr \<lparr>nextSequenceToken = Some ''T1'', rejectedLogEventsInfo = None\<rparr>)]"
  by (simp add: unordered_def submit_batch_def handler_s_def accepting_def request_s_def
      call_put_log_events_def new_calls_def ev_def put_retry_numeral Let_def)

theorem submitted_events_stably_sorted_witness:
  "unordered \<noteq> [] \<and>
   new_calls (handler_s ()) (snd (submit_batch accepting unordered ''s'' 5 (handler_s ()))) =
     [PutLogEvents (request_s None [ev 2 [98], ev 2 [100], ev 5 [97], ev 8 [99]])
        (Inr \<lparr>nextSequenceToken = Some ''T1'', rejectedLogEventsInfo = None\<rparr>)] \<and>
   sorted (map timestamp [ev 2 [98], ev 2 [100], ev 5 [97], ev 8 [99]]) \<and>
   filter (\<lambda>e. timestamp e = 2) [ev 2 [98], ev 2 [100], ev 5 [97], ev 8 [99]] =
     filter (\<lambda>e. timestamp e = 2) unordered"
proof -
  have ne: "unordered \<noteq> []" by (simp add: unordered_def)
  have run: "submit_batch accepting unordered ''s'' 5 (handler_s ()) =
               (fst (submit_batch accepting unordered ''s'' 5 (handler_s ())),
                snd (submit_batch accepting unordered ''s'' 5 (handler_s ())))"
    by simp
  from submitted_events_stably_sorted[OF ne run]
  show ?thesis
    using ne by (simp add: unordered_sent request_s_def)
qed

section \<open>Creation of groups and streams\<close>

lemma init_create:
  "create_log_group api lg s = (out, s') \<Longrightarrow>
   init api lg sn uq si mbs mbc True s =
     (case out of
        Inl e \<Rightarrow>
          if already_exists e
          then Inr \<lparr>log_group = lg, stream_name = sn, use_queues = uq, send_interval = si,
                    max_batch_size = mbs, max_batch_count = mbc, queues = [],
                    sequence_tokens = Map.empty, threads = [], shutting_down = False,
                    cwl_client = \<lparr>service = s', calls = [CreateLogGroup lg out]\<rparr>,
                    warnings = []\<rparr>
          else Inl e
      | Inr u \<Rightarrow>
          Inr \<lparr>log_group = lg, stream_name = sn, use_queues = uq, send_interval = si,
               max_batch_size = mbs, max_batch_count = mbc, queues = [],
               sequence_tokens = Map.empty, threads = [], shutting_down = False,
               cwl_client = \<lparr>service = s', calls = [CreateLogGroup lg out]\<rparr>,
               warnings = []\<rparr>)"
  by (simp add: init_def Let_def
      idempotent_create_result[where callable = "call_create_log_group api lg"
        and out = out and c' = "\<lparr>service = s', calls = [CreateLogGroup lg out]\<rparr>"]
      call_create_log_group_def split: sum.splits)

lemma emit_creation_fails:
  assumes "sequence_tokens self (stream_of self rcd) = None"
    and "create_log_stream api (log_group self) (stream_of self rcd) (service (cwl_client self))
           = (Inl e, r')"
    and "\<not> already_exists e"
  shows "emit api rcd self =
           (Inl e, self\<lparr>cwl_client := created self (stream_of self rcd) (Inl e) r'\<rparr>)"
proof -
  have "idempotent_create (call_create_log_stream api (log_group self) (stream_of self rcd))
          (cwl_client self) = (Inl e, created self (stream_of self rcd) (Inl e) r')"
    using assms(2,3)
    by (simp add: idempotent_create_result[where out = "Inl e"
          and c' = "created self (stream_of self rcd) (Inl e) r'"]
        call_create_log_stream_def created_def)
  with assms(1) show ?thesis
    by (simp add: emit_def stream_of_def Let_def)
qed

lemma emit_creation_succeeds:
  assumes "sequence_tokens self (stream_of self rcd) = None"
    and "create_log_stream api (log_group self) (stream_of self rcd) (service (cwl_client self))
           = (out, r')"
    and "\<forall>e. out = Inl e \<longrightarrow> already_exists e"
  shows "sequence_tokens (snd (emit api rcd self)) (stream_of self rcd) = Some None"
    and "use_queues self \<longrightarrow> fst (emit api rcd self) = Inr ()"
proof -
  have ic: "idempotent_create (call_create_log_stream api (log_group self) (stream_of self rcd))
          (cwl_client self) = (Inr (), created self (stream_of self rcd) out r')"
    using assms(2,3)
    by (simp add: idempotent_create_result[where out = out
          and c' = "created self (stream_of self rcd) out r'"]
        call_create_log_stream_def created_def split: sum.splits)
  from ic assms(1) show "sequence_tokens (snd (emit api rcd self)) (stream_of self rcd) = Some None"
    by (simp add: emit_def stream_of_def Let_def submit_batch_keeps_tokens)
  from ic assms(1) show "use_queues self \<longrightarrow> fst (emit api rcd self) = Inr ()"
    by (simp add: emit_def stream_of_def Let_def)
qed

lemma first_attempt_without_token:
  assumes "sequence_tokens self sn = Some None" and "batch \<noteq> []" and "0 < n"
  shows "\<exists>kw r cs. new_calls self (snd (submit_batch api batch sn n self)) = PutLogEvents kw r # cs
           \<and> sequenceToken kw = None \<and> logStreamName kw = sn"
proof -
  obtain res self' where run: "submit_batch api batch sn n self = (res, self')"
    by (cases "submit_batch api batch sn n self")
  from submit_batch_trace[OF run] assms obtain r where
    "retry_trace (first_request self batch sn None) n (new_calls self self') r"
    by auto
  with assms(3) obtain c cs r' where "new_calls self self' = c # cs"
    "c = PutLogEvents (first_request self batch sn None) r'"
    by (cases "new_calls self self'") (auto simp: retry_trace_def)
  with run show ?thesis by (simp add: first_request_def)
qed

text \<open>
  C7. Creation is idempotent, for the group in the constructor and for the stream in
  \<open>emit\<close>: when the remote create call fails with the code
  \<open>ResourceAlreadyExistsException\<close> the error is swallowed (the constructor yields a
  handler; \<open>emit\<close> goes on, and in queueing mode returns normally); when it fails with
  anything else the same error is raised again (by the constructor; by \<open>emit\<close>, which
  then leaves the stream unknown and changes nothing but the history of calls). After
  the creation of a stream not seen before, its token is stored as \<open>None\<close>; and while
  the stored token is \<open>None\<close> the first request of a submission carries no
  \<open>sequenceToken\<close>.
\<close>

theorem creation_is_idempotent:
  "(create_log_group api lg s = (Inl e, s') \<and> already_exists e \<longrightarrow>
      (\<exists>self. init api lg sn uq si mbs mbc True s = Inr self)) \<and>
   (create_log_group api lg s = (Inl e, s') \<and> \<not> already_exists e \<longrightarrow>
      init api lg sn uq si mbs mbc True s = Inl e) \<and>
   (sequence_tokens self (stream_of self rcd) = None \<and>
    create_log_stream api (log_group self) (stream_of self rcd) (service (cwl_client self))
      = (out, r') \<and> (\<forall>x. out = Inl x \<longrightarrow> already_exists x) \<longrightarrow>
      sequence_tokens (snd (emit api rcd self)) (stream_of self rcd) = Some None \<and>
      (use_queues self \<longrightarrow> fst (emit api rcd self) = Inr ())) \<and>
   (sequence_tokens self (stream_of self rcd) = None \<and>
    create_log_stream api (log_group self) (stream_of self rcd) (service (cwl_client self))
      = (Inl e, r') \<and> \<not> already_exists e \<longrightarrow>
      emit api rcd self =
        (Inl e, self\<lparr>cwl_client := created self (stream_of self rcd) (Inl e) r'\<rparr>)) \<and>
   (sequence_tokens self strm = Some None \<and> batch \<noteq> [] \<and> 0 < n \<longrightarrow>
      (\<exists>kw r cs. new_calls self (snd (submit_batch api batch strm n self))
                   = PutLogEvents kw r # cs \<and>
                 sequenceToken kw = None \<and> logStreamName kw = strm))"
proof (intro conjI impI)
  assume "create_log_group api lg s = (Inl e, s') \<and> already_exists e"
  then show "\<exists>self. init api lg sn uq si mbs mbc True s = Inr self"
    by (simp add: init_create[where out = "Inl e" and s' = s'])
next
  assume "create_log_group api lg s = (Inl e, s') \<and> \<not> already_exists e"
  then show "init api lg sn uq si mbs mbc True s = Inl e"
    by (simp add: init_create[where out = "Inl e" and s' = s'])
next
  assume a: "sequence_tokens self (stream_of self rcd) = None \<and>
    create_log_stream api (log_group self) (stream_of self rcd) (service (cwl_client self))
      = (out, r') \<and> (\<forall>x. out = Inl x \<longrightarrow> already_exists x)"
  then have a1: "sequence_tokens self (stream_of self rcd) = None"
    and a2: "create_log_stream api (log_group self) (stream_of self rcd)
               (service (cwl_client self)) = (out, r')"
    and a3: "\<forall>x. out = Inl x \<longrightarrow> already_exists x"
    by simp_all
  show "sequence_tokens (snd (emit api rcd self)) (stream_of self rcd) = Some None"
    by (rule emit_creation_succeeds(1)[OF a1 a2 a3])
  assume "use_queues self"
  with emit_creation_succeeds(2)[OF a1 a2 a3] show "fst (emit api rcd self) = Inr ()"
    by simp
next
  assume "sequence_tokens self (stream_of self rcd) = None \<and>
    create_log_stream api (log_group self) (stream_of self rcd) (service (cwl_client self))
      = (Inl e, r') \<and> \<not> already_exists e"
  then show "emit api rcd self =
        (Inl e, self\<lparr>cwl_client := created self (stream_of self rcd) (Inl e) r'\<rparr>)"
    by (intro emit_creation_fails) simp_all
next
  assume "sequence_tokens self strm = Some None \<and> batch \<noteq> [] \<and> 0 < n"
  then show "\<exists>kw r cs. new_calls self (snd (submit_batch api batch strm n self))
                   = PutLogEvents kw r # cs \<and>
                 sequenceToken kw = None \<and> logStreamName kw = strm"
    by (intro first_attempt_without_token) simp_all
qed

theorem creation_is_idempotent_witness:
  "(\<exists>self. init refusing ''g'' None True 60 100 3 True () = Inr self) \<and>
   init refusing ''h'' None True 60 100 3 True () = Inl denied_error \<and>
   sequence_tokens (snd (emit refusing (rec ''s'' 1 [97]) (handler_new True False ()))) ''s''
     = Some None \<and>
   fst (emit refusing (rec ''s'' 1 [97]) (handler_new True False ())) = Inr () \<and>
   fst (emit refusing (rec ''x'' 1 [97]) (handler_new True False ())) = Inl denied_error \<and>
   (\<exists>kw r cs. new_calls (handler_s ()) (snd (submit_batch refusing [ev 1 [97]] ''s'' 5 (handler_s ())))
                = PutLogEvents kw r # cs \<and> sequenceToken kw = None \<and> logStreamName kw = ''s'')"
proof -
  have g: "create_log_group refusing ''g'' () = (Inl exists_error, ())"
    "create_log_group refusing ''h'' () = (Inl denied_error, ())"
    by (simp_all add: refusing_def exists_error_def denied_error_def)
  have s: "stream_of (handler_new True False ()) (rec ''s'' 1 [97]) = ''s''"
    "stream_of (handler_new True False ()) (rec ''x'' 1 [97]) = ''x''"
    by (simp_all add: stream_of_def handler_new_def rec_def)
  have c: "create_log_stream refusing ''g'' ''s'' () = (Inl exists_error, ())"
    "create_log_stream refusing ''g'' ''x'' () = (Inl denied_error, ())"
    by (simp_all add: refusing_def exists_error_def denied_error_def)
  have e: "already_exists exists_error" "\<not> already_exists denied_error"
    by (simp_all add: exists_error_def denied_error_def)
  have h: "sequence_tokens (handler_new True False ()) ''s'' = None"
    "sequence_tokens (handler_new True False ()) ''x'' = None"
    "log_group (handler_new True False ()) = ''g''"
    "service (cwl_client (handler_new True False ())) = ()"
    "use_queues (handler_new True False ())"
    "sequence_tokens (handler_s ()) ''s'' = Some None"
    by (simp_all add: handler_new_def handler_s_def)
  note T = creation_is_idempotent[where api = refusing and s = "()" and s' = "()"
      and sn = None and uq = True and si = 60 and mbs = 100 and mbc = 3 and r' = "()"
      and strm = "''s''" and batch = "[ev 1 [97]]" and n = 5]
  from T[where lg = "''g''" and e = exists_error and self = "handler_new True False ()"
      and rcd = "rec ''s'' 1 [97]" and out = "Inl exists_error"]
  have 1: "\<exists>self. init refusing ''g'' None True 60 100 3 True () = Inr self"
    and 3: "sequence_tokens (snd (emit refusing (rec ''s'' 1 [97]) (handler_new True False ()))) ''s''
              = Some None"
    and 4: "fst (emit refusing (rec ''s'' 1 [97]) (handler_new True False ())) = Inr ()"
    by (simp_all add: g s c e h)
  from T[where lg = "''h''" and e = denied_error and self = "handler_new True False ()"
      and rcd = "rec ''x'' 1 [97]" and out = "Inl denied_error"]
  have 2: "init refusing ''h'' None True 60 100 3 True () = Inl denied_error"
    and 5: "fst (emit refusing (rec ''x'' 1 [97]) (handler_new True False ())) = Inl denied_error"
    by (simp_all add: g s c e h)
  from T[where lg = "''g''" and e = exists_error and self = "handler_s ()"
      and rcd = "rec ''s'' 1 [97]" and out = "Inl exists_error"]
  have 6: "\<exists>kw r cs. new_calls (handler_s ()) (snd (submit_batch refusing [ev 1 [97]] ''s'' 5 (handler_s ())))
                = PutLogEvents kw r # cs \<and> sequenceToken kw = None \<and> logStreamName kw = ''s''"
    by (simp add: h)
  from 1 2 3 4 5 6 show ?thesis by simp
qed

section \<open>The batches of a worker\<close>

lemma accounts_handed:
  "accounts pre' ps r \<Longrightarrow>
   (status r = Terminated \<longrightarrow>
      b @ pre' @ received (takeWhile (\<lambda>p. \<not> sentinel p) ps) =
        pre @ received (takeWhile (\<lambda>p. \<not> sentinel p) (p # ps)) \<and>
      n + length (received (takeWhile (\<lambda>p. \<not> sentinel p) ps)) =
        length (received (takeWhile (\<lambda>p. \<not> sentinel p) (p # ps)))) \<Longrightarrow>
   (\<forall>w. status r = Waiting w \<longrightarrow>
      b @ pre' @ received ps = pre @ received (p # ps) \<and>
      n + length (received ps) = length (received (p # ps))) \<Longrightarrow>
   \<not> sentinel p \<Longrightarrow>
   accounts pre (p # ps) (handed b n r)"
  by (auto simp: accounts_def handed_def)

lemma accounts_crashed:
  "accounts pre ps \<lparr>status = Crashed e, submitted = bs, tasks_done = n, final = s\<rparr>"
  by (simp add: accounts_def)

lemma batch_sender_accounts:
  shows "accounts (case msg of None \<Rightarrow> [] | Some m \<Rightarrow> [m]) ps
           (batch_sender_outer api sn mbs mbc msg ps self)"
    and "accounts cur_batch ps
           (batch_sender_inner api sn mbs mbc cur_batch sz cnt ps self)"
proof (induct api sn mbs mbc msg ps self and api sn mbs mbc cur_batch sz cnt ps self
       rule: batch_sender_outer_batch_sender_inner.induct)
  case (1 api sn mbs mbc msg ps self)
  then show ?case by (simp add: Let_def)
next
  case (2 api sn mbs mbc cur_batch sz cnt self)
  show ?case by (simp add: accounts_def)
next
  case (3 api sn mbs mbc cur_batch sz cnt ps self)
  show ?case
  proof (cases "submit_batch api cur_batch sn 5 self")
    case (Pair res self')
    show ?thesis
    proof (cases res)
      case (Inl e)
      with Pair show ?thesis by (simp add: accounts_crashed)
    next
      case (Inr u)
      with Pair 3 have "accounts [] ps (batch_sender_outer api sn mbs mbc None ps self')"
        by simp
      from accounts_handed[OF this, where b = cur_batch and n = 0 and p = Empty and pre = cur_batch]
      show ?thesis using Pair Inr by simp
    qed
  qed
next
  case (4 api sn mbs mbc cur_batch sz cnt late ps self)
  show ?case
    by (cases "submit_batch api cur_batch sn 5 self")
       (auto simp: accounts_def split: sum.splits)
next
  case (5 api sn mbs mbc cur_batch sz cnt m late ps self)
  show ?case
  proof (cases "sz + size_msg m > mbs \<or> cnt \<ge> mbc \<or> late")
    case True
    show ?thesis
    proof (cases "submit_batch api cur_batch sn 5 self")
      case (Pair res self')
      show ?thesis
      proof (cases res)
        case (Inl e)
        with Pair True show ?thesis by (simp add: accounts_crashed)
      next
        case (Inr u)
        with Pair True 5(1)
        have "accounts [m] ps (batch_sender_outer api sn mbs mbc (Some m) ps self')"
          by simp
        from accounts_handed[OF this, where b = cur_batch and n = 1 and p = "Got (Msg m) late"
            and pre = cur_batch]
        show ?thesis using Pair Inr True by simp
      qed
    qed
  next
    case False
    with 5(2) have "accounts (cur_batch @ [m]) ps
        (batch_sender_inner api sn mbs mbc (cur_batch @ [m]) (sz + size_msg m) (cnt + 1) ps self)"
      by simp
    from accounts_handed[OF this, where b = "[]" and n = 1 and p = "Got (Msg m) late"
        and pre = cur_batch]
    have "accounts cur_batch (Got (Msg m) late # ps)
            (handed [] 1 (batch_sender_inner api sn mbs mbc (cur_batch @ [m]) (sz + size_msg m)
               (cnt + 1) ps self))"
      by simp
    then have "accounts cur_batch (Got (Msg m) late # ps)
            (acked 1 (batch_sender_inner api sn mbs mbc (cur_batch @ [m]) (sz + size_msg m)
               (cnt + 1) ps self))"
      by (simp add: accounts_def handed_def acked_def)
    with False show ?thesis by simp
  qed
qed

lemma received_append_sentinel:
  "\<forall>p \<in> set ps. \<not> sentinel p \<Longrightarrow>
   received (takeWhile (\<lambda>p. \<not> sentinel p) (ps @ [Got END late])) = received ps"
  by (simp add: takeWhile_append2 )

lemma accepting_run_count:
  "status count_run = Terminated \<and>
   submitted count_run = [[ev 0 [65], ev 0 [66], ev 0 [67]], [ev 0 [68]], []] \<and>
   tasks_done count_run = 5"
  by (simp add: count_run_def four_events_def batch_sender_def submit_batch_def accepting_def
      handler_s_def call_put_log_events_def put_retry_numeral Let_def handed_def acked_def
      size_msg_def ev_def)



lemma forbidding_run:
  "status crash_run = Crashed forbidden_error \<and> submitted crash_run = [[ev 0 [65]]]"
  by (simp add: crash_run_def interrupted_def batch_sender_def submit_batch_def forbidding_def
      forbidden_error_def handler_s_def call_put_log_events_def put_retry_numeral
      stale_token_codes_def Let_def handed_def acked_def size_msg_def ev_def)

text \<open>
  C3, as amended. The worker receives the events of \<open>ps\<close> (with any timeouts and any
  outcomes of the deadline test in between) and then the sentinel. If no submission
  raises an error, the worker terminates, and the batches it has handed to the
  submitter, one after the other, are together exactly the events in the order
  received: none dropped, none twice, none out of place; and it has reported one
  \<open>task_done\<close> for each event and one for the sentinel. In particular, when an event
  arrives that closes the batch (by size, by count or by the deadline), the batch handed
  over is the one accumulated before it, and the run goes on with that event as the only
  member of the next batch. What reaches the service is each of these batches sorted by
  timestamp.
\<close>

theorem batches_concatenate_to_enqueue_order:
  assumes "\<forall>p \<in> set ps. \<not> sentinel p"
    and "r = batch_sender api sn mbs mbc (ps @ [Got END late]) self"
    and "\<forall>e. status r \<noteq> Crashed e"
  shows "status r = Terminated \<and> concat (submitted r) = received ps \<and>
         tasks_done r = Suc (length (received ps)) \<and>
         ((sz + size_msg m > mbs \<or> cnt \<ge> mbc \<or> late') \<and>
          submit_batch api cur_batch sn 5 h = (Inr (), h') \<longrightarrow>
            submitted (batch_sender_inner api sn mbs mbc cur_batch sz cnt
                         (Got (Msg m) late' # qs) h)
              = cur_batch # submitted (batch_sender_inner api sn mbs mbc [m] (size_msg m) 1 qs h'))"
proof -
  have acc: "accounts [] (ps @ [Got END late]) r"
    using batch_sender_accounts(1)[where msg = None] assms(2)
    by (simp add: batch_sender_def)
  have "status r = Terminated"
  proof (cases "status r")
    case (Waiting b)
    with acc show ?thesis by (auto simp: accounts_def)
  next
    case (Crashed e)
    with assms(3) show ?thesis by simp
  qed simp
  with acc assms(1) have "status r = Terminated \<and> concat (submitted r) = received ps \<and>
         tasks_done r = Suc (length (received ps))"
    by (simp add: accounts_def received_append_sentinel)
  then show ?thesis by (auto simp: handed_def Let_def)
qed

theorem batches_concatenate_to_enqueue_order_witness:
  "status count_run = Terminated \<and>
   submitted count_run = [[ev 0 [65], ev 0 [66], ev 0 [67]], [ev 0 [68]], []] \<and>
   concat (submitted count_run) = received four_events \<and>
   received four_events = [ev 0 [65], ev 0 [66], ev 0 [67], ev 0 [68]] \<and>
   tasks_done count_run = 5"
proof -
  have ns: "\<forall>p \<in> set four_events. \<not> sentinel p" by (simp add: four_events_def)
  have nc: "\<forall>e. status count_run \<noteq> Crashed e" by (simp add: accepting_run_count)
  have rc: "received four_events = [ev 0 [65], ev 0 [66], ev 0 [67], ev 0 [68]]"
    by (simp add: four_events_def)
  from batches_concatenate_to_enqueue_order[OF ns count_run_def nc] rc
  show ?thesis by (simp add: accepting_run_count)
qed

text \<open>
  C3 as stated fails when a submission raises: the service rejects the first batch for
  lack of permission, the worker ends there, and the event received after it is in no
  batch.
\<close>

theorem rejected_batch_loses_later_events:
  "status crash_run = Crashed forbidden_error \<and>
   received interrupted = [ev 0 [65], ev 0 [66]] \<and>
   concat (submitted crash_run) = [ev 0 [65]] \<and>
   concat (submitted crash_run) \<noteq> received interrupted"
  by (simp add: forbidding_run interrupted_def ev_def)









section \<open>Shutdown and late arrivals\<close>



lemma emit_unknown_queueing:
  assumes "use_queues self" and "sequence_tokens self (stream_of self rcd) = None"
    and "create_log_stream api (log_group self) (stream_of self rcd) (service (cwl_client self))
           = (out, r')"
    and "\<forall>e. out = Inl e \<longrightarrow> already_exists e"
  shows "emit api rcd self =
     (let sn = stream_of self rcd;
          self1 = self\<lparr>cwl_client := created self sn out r',
                       sequence_tokens := (sequence_tokens self)(sn \<mapsto> None)\<rparr>;
          self2 = (if sn \<notin> fst ` set (queues self)
                   then self1\<lparr>queues := queues self @ [(sn, Queue)],
                               threads := threads self @ [new_thread sn self]\<rparr>
                   else self1)
      in if shutting_down self
         then (Inr (), self2\<lparr>warnings := warnings self @ [shutdown_warning]\<rparr>)
         else (Inr (), self2\<lparr>queues := queue_put sn
                 (Msg \<lparr>timestamp = created_ms rcd, message = formatted rcd\<rparr>) (queues self2)\<rparr>))"
proof -
  have "idempotent_create (call_create_log_stream api (log_group self) (stream_of self rcd))
          (cwl_client self) = (Inr (), created self (stream_of self rcd) out r')"
    using assms(3,4)
    by (simp add: idempotent_create_result[where out = out
          and c' = "created self (stream_of self rcd) out r'"]
        call_create_log_stream_def created_def split: sum.splits)
  with assms(1,2) show ?thesis
    by (simp add: emit_def stream_of_def Let_def new_thread_def)
qed








text \<open>
  C10, as amended: for a handler in queueing mode and a stream it has not seen, whose
  remote creation succeeds or fails with \<open>ResourceAlreadyExistsException\<close>. When the
  handler is shutting down, \<open>emit\<close> returns normally having made the creation call,
  stored \<open>None\<close> as the token of the stream, added an empty queue for it, started a daemon
  worker thread for it with the handler's settings, and issued the warning; the record
  is in no queue. When the handler is not shutting down, \<open>emit\<close> does the same but puts
  the record in the new queue and issues no warning: the shutting-down state decides
  nothing but the enqueue and the warning.
\<close>

theorem unseen_stream_after_shutdown:
  assumes "use_queues self"
    and "sequence_tokens self (stream_of self rcd) = None"
    and "stream_of self rcd \<notin> fst ` set (queues self)"
    and "create_log_stream api (log_group self) (stream_of self rcd) (service (cwl_client self))
           = (out, r')"
    and "\<forall>e. out = Inl e \<longrightarrow> already_exists e"
  shows "(shutting_down self \<longrightarrow>
          emit api rcd self =
            (Inr (),
             self\<lparr>cwl_client :=
                    \<lparr>service = r',
                     calls = calls (cwl_client self) @
                       [CreateLogStream (log_group self) (stream_of self rcd) out]\<rparr>,
                  sequence_tokens := (sequence_tokens self)(stream_of self rcd \<mapsto> None),
                  queues := queues self @
                    [(stream_of self rcd, \<lparr>items = [], unfinished_tasks = 0\<rparr>)],
                  threads := threads self @
                    [\<lparr>thread_stream = stream_of self rcd,
                      thread_send_interval = send_interval self,
                      thread_max_batch_size = max_batch_size self,
                      thread_max_batch_count = max_batch_count self,
                      daemon = True, started = True\<rparr>],
                  warnings := warnings self @
                    [''Received message after logging system shutdown'']\<rparr>)) \<and>
         (\<not> shutting_down self \<longrightarrow>
          emit api rcd self =
            (Inr (),
             self\<lparr>cwl_client :=
                    \<lparr>service = r',
                     calls = calls (cwl_client self) @
                       [CreateLogStream (log_group self) (stream_of self rcd) out]\<rparr>,
                  sequence_tokens := (sequence_tokens self)(stream_of self rcd \<mapsto> None),
                  queues := queues self @
                    [(stream_of self rcd,
                      \<lparr>items = [Msg \<lparr>timestamp = created_ms rcd, message = formatted rcd\<rparr>],
                       unfinished_tasks = 1\<rparr>)],
                  threads := threads self @
                    [\<lparr>thread_stream = stream_of self rcd,
                      thread_send_interval = send_interval self,
                      thread_max_batch_size = max_batch_size self,
                      thread_max_batch_count = max_batch_count self,
                      daemon = True, started = True\<rparr>]\<rparr>))"
proof -
  have fresh: "\<forall>kq \<in> set (queues self). fst kq \<noteq> stream_of self rcd"
    using assms(3) by force
  then have "map (\<lambda>(k, q). if k = stream_of self rcd then (k, put x q) else (k, q)) (queues self)
      = queues self" for x
    by (intro map_idI) (auto split: prod.splits)
  then show ?thesis
    unfolding emit_unknown_queueing[OF assms(1,2,4,5)]
    using assms(3)
    by (simp add: Let_def created_def Queue_def new_thread_def shutdown_warning_def
        queue_put_def put_def)
qed

theorem unseen_stream_after_shutdown_witness:
  "emit refusing (rec ''s'' 1 [97]) (handler_new True True ()) =
     (Inr (),
      (handler_new True True ())
        \<lparr>cwl_client :=
           \<lparr>service = (), calls = [CreateLogStream ''g'' ''s'' (Inl exists_error)]\<rparr>,
         sequence_tokens := [''s'' \<mapsto> None],
         queues := [(''s'', \<lparr>items = [], unfinished_tasks = 0\<rparr>)],
         threads :=
           [\<lparr>thread_stream = ''s'', thread_send_interval = 60, thread_max_batch_size = 100,
             thread_max_batch_count = 3, daemon = True, started = True\<rparr>],
         warnings := [''Received message after logging system shutdown'']\<rparr>)"
proof -
  let ?h = "handler_new True True () :: unit handler"
  have s: "stream_of ?h (rec ''s'' 1 [97]) = ''s''"
    by (simp add: stream_of_def handler_new_def rec_def)
  have h: "use_queues ?h" "shutting_down ?h" "sequence_tokens ?h ''s'' = None"
    "''s'' \<notin> fst ` set (queues ?h)" "log_group ?h = ''g''" "service (cwl_client ?h) = ()"
    "calls (cwl_client ?h) = []" "queues ?h = []" "threads ?h = []" "warnings ?h = []"
    "send_interval ?h = 60" "max_batch_size ?h = 100" "max_batch_count ?h = 3"
    "sequence_tokens ?h = Map.empty"
    by (simp_all add: handler_new_def)
  have c: "create_log_stream refusing ''g'' ''s'' () = (Inl exists_error, ())"
    by (simp add: refusing_def exists_error_def)
  have e: "\<forall>x. (Inl exists_error :: exn + unit) = Inl x \<longrightarrow> already_exists x"
    by (simp add: exists_error_def)
  from unseen_stream_after_shutdown[where self = ?h and rcd = "rec ''s'' 1 [97]"
      and api = refusing and out = "Inl exists_error" and r' = "()"]
  show ?thesis
    by (simp add: s h c e)
qed

lemma direct_unseen_stream:
  "emit accepting (rec ''s'' 1 [97]) (handler_new False True ()) =
     (Inr (),
      (handler_new False True ())
        \<lparr>cwl_client :=
           \<lparr>service = (),
            calls = [CreateLogStream ''g'' ''s'' (Inr ()),
                     PutLogEvents (request_s None [ev 1 [97]])
                       (Inr \<lparr>nextSequenceToken = Some ''T1'', rejectedLogEventsInfo = None\<rparr>)]\<rparr>,
         sequence_tokens := [''s'' \<mapsto> None]\<rparr>)"
  by (simp add: emit_def handler_new_def rec_def Let_def idempotent_create_def
      call_create_log_stream_def submit_batch_def accepting_def call_put_log_events_def
      put_retry_numeral request_s_def ev_def)

lemma denied_unseen_stream:
  "emit refusing (rec ''x'' 1 [97]) (handler_new True True ()) =
     (Inl denied_error,
      (handler_new True True ())
        \<lparr>cwl_client :=
           \<lparr>service = (), calls = [CreateLogStream ''g'' ''x'' (Inl denied_error)]\<rparr>\<rparr>)"
  by (simp add: emit_def handler_new_def rec_def Let_def
      idempotent_create_def call_create_log_stream_def refusing_def denied_error_def)

text \<open>
  C10 as stated fails in direct mode: for a stream not seen before, after shutdown has
  begun, \<open>emit\<close> creates the stream and stores its token, but makes no queue, starts no
  thread and issues no warning, and it submits the record. It also fails in queueing
  mode when the creation is refused: \<open>emit\<close> raises the error, and the stream has no
  token, no queue and no thread.
\<close>

theorem direct_mode_starts_no_worker:
  "shutting_down (handler_new False True ()) \<and>
   fst (emit accepting (rec ''s'' 1 [97]) (handler_new False True ())) = Inr () \<and>
   queues (snd (emit accepting (rec ''s'' 1 [97]) (handler_new False True ()))) = [] \<and>
   threads (snd (emit accepting (rec ''s'' 1 [97]) (handler_new False True ()))) = [] \<and>
   warnings (snd (emit accepting (rec ''s'' 1 [97]) (handler_new False True ()))) = [] \<and>
   calls (cwl_client (snd (emit accepting (rec ''s'' 1 [97]) (handler_new False True ())))) =
     [CreateLogStream ''g'' ''s'' (Inr ()),
      PutLogEvents (request_s None [ev 1 [97]])
        (Inr \<lparr>nextSequenceToken = Some ''T1'', rejectedLogEventsInfo = None\<rparr>)] \<and>
   shutting_down (handler_new True True ()) \<and>
   fst (emit refusing (rec ''x'' 1 [97]) (handler_new True True ())) = Inl denied_error \<and>
   sequence_tokens (snd (emit refusing (rec ''x'' 1 [97]) (handler_new True True ()))) ''x''
     = None \<and>
   queues (snd (emit refusing (rec ''x'' 1 [97]) (handler_new True True ()))) = [] \<and>
   threads (snd (emit refusing (rec ''x'' 1 [97]) (handler_new True True ()))) = [] \<and>
   warnings (snd (emit refusing (rec ''x'' 1 [97]) (handler_new True True ()))) = []"
  by (simp add: direct_unseen_stream denied_unseen_stream)
     (simp add: handler_new_def)

end
